theory Spec2Isabelle
  imports Main
begin

section \<open>Requests, responses and the cache storage\<close>

text \<open>
  The worker script \<^verbatim>\<open>sw.js\<close> runs against the browser's request, response and cache
  storage objects. A request URL is kept in parsed form, the three components that
  \<^verbatim>\<open>new URL(event.request.url)\<close> exposes and that the cache storage compares: origin,
  pathname and search (the query string with its question mark, empty when there is none).
  Requests are the GET requests over http or https that pages and the worker issue; they
  carry no header fields, so a cache lookup compares URLs only. A response is its status, its body and
  whether its \<^verbatim>\<open>Vary\<close> header is \<^verbatim>\<open>*\<close>: the worker reads and changes none of these, and
  they are what \<^verbatim>\<open>cache.put\<close> and \<^verbatim>\<open>cache.addAll\<close> look at before they store.
\<close>

record location =
  origin :: string
  pathname :: string
  search :: string

record request =
  url :: location
  destination :: string

record response =
  status :: nat
  body :: string
  vary_star :: bool

datatype error = TypeError

text \<open>
  A cache is a list of entries keyed by the request's whole URL: \<^verbatim>\<open>sw.js\<close> passes no
  \<^verbatim>\<open>ignoreSearch\<close> option to any \<^verbatim>\<open>match\<close> or \<^verbatim>\<open>put\<close>, so the search component
  takes part in every comparison. The cache storage is the list of named caches in the
  order of their creation. The network is a function that answers a request with a
  response of any status, or fails (\<open>None\<close>, a rejected \<^verbatim>\<open>fetch\<close>).
\<close>

type_synonym cache = "(location \<times> response) list"

type_synonym cache_storage = "(string \<times> cache) list"

type_synonym network = "request \<Rightarrow> response option"

definition cache_match :: "cache \<Rightarrow> location \<Rightarrow> response option" where
  "cache_match c k = map_of c k"

definition cache_put :: "cache \<Rightarrow> location \<Rightarrow> response \<Rightarrow> cache" where
  "cache_put c k r = filter (\<lambda>e. fst e \<noteq> k) c @ [(k, r)]"

definition caches_keys :: "cache_storage \<Rightarrow> string list" where
  "caches_keys s = map fst s"

definition caches_open :: "string \<Rightarrow> cache_storage \<Rightarrow> cache_storage" where
  "caches_open name s = (if name \<in> set (caches_keys s) then s else s @ [(name, [])])"

definition caches_delete :: "string \<Rightarrow> cache_storage \<Rightarrow> cache_storage" where
  "caches_delete name s = filter (\<lambda>e. fst e \<noteq> name) s"

text \<open>\<^verbatim>\<open>caches.match\<close> asks every cache of the storage in order and answers with the first hit.\<close>

fun caches_match :: "cache_storage \<Rightarrow> location \<Rightarrow> response option" where
  "caches_match [] k = None"
| "caches_match ((name, c) # s) k =
     (case cache_match c k of Some r \<Rightarrow> Some r | None \<Rightarrow> caches_match s k)"

text \<open>The entries of the cache of a given name (\<open>None\<close> when the storage has no such cache).\<close>

definition generation :: "cache_storage \<Rightarrow> string \<Rightarrow> cache option" where
  "generation s name = map_of s name"

text \<open>\<^verbatim>\<open>cache.put\<close> on the opened cache of a given name.\<close>

definition storage_put :: "cache_storage \<Rightarrow> string \<Rightarrow> location \<Rightarrow> response \<Rightarrow> cache_storage" where
  "storage_put s name k r = map (\<lambda>(n, c). if n = name then (n, cache_put c k r) else (n, c)) s"

text \<open>
  A path given as a string (\<^verbatim>\<open>cache.addAll\<close>, \<^verbatim>\<open>caches.match('/index.html')\<close>) becomes a
  request on the worker's own origin, with no query string and no destination.
\<close>

definition location_of :: "string \<Rightarrow> string \<Rightarrow> location" where
  "location_of org p = \<lparr>origin = org, pathname = p, search = []\<rparr>"

definition request_of :: "string \<Rightarrow> string \<Rightarrow> request" where
  "request_of org p = \<lparr>url = location_of org p, destination = []\<rparr>"

definition ok :: "response \<Rightarrow> bool" where
  "ok r = (200 \<le> status r \<and> status r \<le> 299)"

text \<open>
  A cache refuses a partial response (status 206) and a response whose \<^verbatim>\<open>Vary\<close> header
  is \<^verbatim>\<open>*\<close>: \<^verbatim>\<open>cache.put\<close> rejects with a \<^verbatim>\<open>TypeError\<close> and stores nothing.
\<close>

definition storable :: "response \<Rightarrow> bool" where
  "storable r = (status r \<noteq> 206 \<and> \<not> vary_star r)"

text \<open>
  \<^verbatim>\<open>cache.addAll\<close> fetches every request and rejects when one fetch fails, answers with
  a status outside 200..299 or answers with a response that a cache refuses; only when all
  have succeeded are the responses stored.
\<close>

definition accepted :: "response \<Rightarrow> bool" where
  "accepted r = (ok r \<and> storable r)"

fun fetch_all :: "network \<Rightarrow> request list \<Rightarrow> error + (request \<times> response) list" where
  "fetch_all net [] = Inr []"
| "fetch_all net (q # qs) =
     (case net q of
        None \<Rightarrow> Inl TypeError
      | Some r \<Rightarrow>
          if accepted r then
            (case fetch_all net qs of Inl e \<Rightarrow> Inl e | Inr rs \<Rightarrow> Inr ((q, r) # rs))
          else Inl TypeError)"

definition cache_addAll ::
  "network \<Rightarrow> string \<Rightarrow> cache_storage \<Rightarrow> string \<Rightarrow> string list \<Rightarrow> error + cache_storage" where
  "cache_addAll net org s name paths =
     (case fetch_all net (map (request_of org) paths) of
        Inl e \<Rightarrow> Inl e
      | Inr rs \<Rightarrow> Inr (fold (\<lambda>(q, r) s'. storage_put s' name (url q) r) rs s))"

section \<open>The worker script\<close>

definition CACHE_NAME :: string where
  "CACHE_NAME = ''friday-saga-v2''"

definition STATIC_CACHE_NAME :: string where
  "STATIC_CACHE_NAME = ''friday-saga-static-v2''"

definition urlsToCache :: "string list" where
  "urlsToCache =
     [''/'',
      ''/index.html'',
      ''/styles.css'',
      ''/js/main.js'',
      ''/js/modules/Animations.js'',
      ''/js/modules/ContentRenderer.js'',
      ''/js/modules/DataLoader.js'',
      ''/js/modules/TabManager.js'',
      ''/js/modules/VideoLoader.js'',
      ''/js/modules/YouTubeEmbed.js'',
      ''/favicon.ico'',
      ''/favicon.svg'',
      ''/icon-192.png'',
      ''/icon-512.png'']"

definition DATA_FILES :: "string list" where
  "DATA_FILES =
     [''/data/characters.json'',
      ''/data/jokes.json'',
      ''/data/themes.json'',
      ''/data/videos.json'']"

text \<open>
  The state of the worker that the lifecycle handlers change: the cache storage, the
  console, and whether \<^verbatim>\<open>skipWaiting\<close> and \<^verbatim>\<open>clients.claim\<close> have been called. A
  lifecycle handler also hands a promise to \<^verbatim>\<open>event.waitUntil\<close>; \<open>settled\<close> is how
  that promise ends.
\<close>

record worker =
  storage :: cache_storage
  console :: "(string \<times> error) list"
  skip_waiting :: bool
  claimed :: bool

datatype settled = Fulfilled | Rejected error

subsection \<open>install\<close>

text \<open>
  \<^verbatim>\<open>caches.open(STATIC_CACHE_NAME).then(cache => cache.addAll(urlsToCache)).catch(log)\<close>,
  then \<^verbatim>\<open>self.skipWaiting()\<close>.
\<close>

definition population :: "network \<Rightarrow> string \<Rightarrow> cache_storage \<Rightarrow> error + cache_storage" where
  "population net org s =
     cache_addAll net org (caches_open STATIC_CACHE_NAME s) STATIC_CACHE_NAME urlsToCache"

definition on_install :: "network \<Rightarrow> string \<Rightarrow> worker \<Rightarrow> settled \<times> worker" where
  "on_install net org w =
     (case population net org (storage w) of
        Inr s' \<Rightarrow> (Fulfilled, w\<lparr>storage := s', skip_waiting := True\<rparr>)
      | Inl e \<Rightarrow>
          (Fulfilled,
           w\<lparr>storage := caches_open STATIC_CACHE_NAME (storage w),
             console := console w @ [(''Cache failed:'', e)],
             skip_waiting := True\<rparr>))"

subsection \<open>activate\<close>

text \<open>
  Every name that \<^verbatim>\<open>caches.keys()\<close> lists and that is neither of the two current names
  is deleted; then \<^verbatim>\<open>self.clients.claim()\<close>.
\<close>

definition cleanup :: "cache_storage \<Rightarrow> cache_storage" where
  "cleanup s =
     fold (\<lambda>cacheName s'.
             if cacheName \<noteq> CACHE_NAME \<and> cacheName \<noteq> STATIC_CACHE_NAME
             then caches_delete cacheName s' else s')
          (caches_keys s) s"

definition on_activate :: "worker \<Rightarrow> settled \<times> worker" where
  "on_activate w = (Fulfilled, w\<lparr>storage := cleanup (storage w), claimed := True\<rparr>)"

subsection \<open>fetch\<close>

text \<open>
  What a fetch event leaves behind: the response handed to \<^verbatim>\<open>event.respondWith\<close>
  (\<open>None\<close> when the promise ends without a response, which the page sees as a failed
  fetch), the requests sent to the network, and the cache writes that were started and
  not awaited: cache name, key and response of each
  \<^verbatim>\<open>caches.open(name).then(cache => cache.put(event.request, responseToCache))\<close>.
  The storage itself is untouched when the response is handed over; \<open>settle\<close> is the
  storage once the started writes have ended: each opens its cache, and its put stores the
  response or, for a response that a cache refuses, is rejected and stores nothing (the
  rejection reaches no handler).
\<close>

record outcome =
  responded :: "response option"
  fetched :: "request list"
  detached :: "(string \<times> location \<times> response) list"

definition isDataFile :: "request \<Rightarrow> bool" where
  "isDataFile req = list_ex (\<lambda>dataPath. pathname (url req) = dataPath) DATA_FILES"

definition offline :: response where
  "offline = \<lparr>status = 503, body = ''Offline'', vary_star = False\<rparr>"

text \<open>Network-first strategy for data files.\<close>

definition network_first :: "network \<Rightarrow> cache_storage \<Rightarrow> request \<Rightarrow> outcome" where
  "network_first net s req =
     (case net req of
        Some resp \<Rightarrow>
          \<lparr>responded = Some resp, fetched = [req],
           detached = [(CACHE_NAME, url req, resp)]\<rparr>
      | None \<Rightarrow>
          (case caches_match s (url req) of
             Some cachedResponse \<Rightarrow>
               \<lparr>responded = Some cachedResponse, fetched = [req], detached = []\<rparr>
           | None \<Rightarrow>
               \<lparr>responded = Some offline, fetched = [req], detached = []\<rparr>))"

text \<open>Cache-first strategy for static assets.\<close>

definition cache_first :: "network \<Rightarrow> string \<Rightarrow> cache_storage \<Rightarrow> request \<Rightarrow> outcome" where
  "cache_first net org s req =
     (case caches_match s (url req) of
        Some resp \<Rightarrow> \<lparr>responded = Some resp, fetched = [], detached = []\<rparr>
      | None \<Rightarrow>
          (case net req of
             Some networkResponse \<Rightarrow>
               \<lparr>responded = Some networkResponse, fetched = [req],
                detached = [(STATIC_CACHE_NAME, url req, networkResponse)]\<rparr>
           | None \<Rightarrow>
               if destination req = ''document''
               then \<lparr>responded = caches_match s (location_of org ''/index.html''),
                     fetched = [req], detached = []\<rparr>
               else \<lparr>responded = None, fetched = [req], detached = []\<rparr>))"

definition on_fetch :: "network \<Rightarrow> string \<Rightarrow> cache_storage \<Rightarrow> request \<Rightarrow> outcome" where
  "on_fetch net org s req =
     (if isDataFile req then network_first net s req else cache_first net org s req)"

definition settle :: "cache_storage \<Rightarrow> (string \<times> location \<times> response) list \<Rightarrow> cache_storage" where
  "settle s ws =
     fold (\<lambda>(name, k, r) s'.
             if storable r then storage_put (caches_open name s') name k r
             else caches_open name s')
          ws s"

text \<open>
  A fetch of the population fails when it is rejected or answered with a response that
  \<^verbatim>\<open>cache.addAll\<close> does not accept.
\<close>

definition fetch_fails :: "network \<Rightarrow> request \<Rightarrow> bool" where
  "fetch_fails net q = (case net q of None \<Rightarrow> True | Some r \<Rightarrow> \<not> accepted r)"

text \<open>
  The storages that the worker's handlers produce. The data cache only ever receives
  responses under keys whose pathname is in \<open>DATA_FILES\<close>, so a storage that holds
  nothing else in its data cache, under distinct cache names, stays so through install,
  activate and the writes of fetch events (\<open>tidy\<close>); a storage that install found empty
  or left by the earlier worker revision (\<^verbatim>\<open>friday-saga-v1\<close>) is of this kind. After
  activate only the two current names remain (\<open>active_storage\<close>), and this is the storage
  that fetch events see.
\<close>

definition data_keys_only :: "cache \<Rightarrow> bool" where
  "data_keys_only c = list_all (\<lambda>e. pathname (fst e) \<in> set DATA_FILES) c"

definition tidy :: "cache_storage \<Rightarrow> bool" where
  "tidy s =
     (distinct (caches_keys s)
      \<and> list_all (\<lambda>e. if fst e = CACHE_NAME then data_keys_only (snd e) else True) s)"

definition active_storage :: "cache_storage \<Rightarrow> bool" where
  "active_storage s =
     (tidy s \<and> list_all (\<lambda>n. n = CACHE_NAME \<or> n = STATIC_CACHE_NAME) (caches_keys s))"

section \<open>Sample values\<close>

text \<open>
  Concrete requests, networks and workers on which the handlers are evaluated: a site, a
  request for the jokes feed with a given query string (the page's loader adds
  \<^verbatim>\<open>_t\<close> with the current time to every data request), a request for a path of the site
  with a given destination, a network that is down, one that answers every request with
  the same response, one that is down for a single path only, and a worker that has
  nothing stored yet.
\<close>

definition site :: string where
  "site = ''https://friday.example''"

definition jokes :: "string \<Rightarrow> request" where
  "jokes q = \<lparr>url = \<lparr>origin = site, pathname = ''/data/jokes.json'', search = q\<rparr>,
              destination = []\<rparr>"

definition asset :: "string \<Rightarrow> string \<Rightarrow> request" where
  "asset p d = \<lparr>url = location_of site p, destination = d\<rparr>"

definition down :: network where
  "down q = None"

definition answering :: "response \<Rightarrow> network" where
  "answering r q = Some r"

definition failing_at :: "string \<Rightarrow> network" where
  "failing_at p q =
     (if pathname (url q) = p then None
      else Some \<lparr>status = 200, body = pathname (url q), vary_star = False\<rparr>)"

definition fresh :: worker where
  "fresh = \<lparr>storage = [], console = [], skip_waiting = False, claimed = False\<rparr>"

section \<open>Facts about the cache storage\<close>

lemma isDataFile_iff: "isDataFile req \<longleftrightarrow> pathname (url req) \<in> set DATA_FILES"
  by (auto simp: isDataFile_def list_ex_iff)

lemma cache_match_put_same: "cache_match (cache_put c k r) k = Some r"
  by (induction c) (auto simp: cache_match_def cache_put_def)

lemma cache_match_put_other: "k' \<noteq> k \<Longrightarrow> cache_match (cache_put c k r) k' = cache_match c k'"
  by (induction c) (auto simp: cache_match_def cache_put_def)

lemma generation_open: "\<exists>c. generation (caches_open name s) name = Some c"
proof (cases "name \<in> set (caches_keys s)")
  case True
  then have "name \<in> fst ` set s" by (simp add: caches_keys_def)
  then have "map_of s name \<noteq> None" by (simp add: map_of_eq_None_iff)
  with True show ?thesis by (auto simp: caches_open_def generation_def)
next
  case False
  then have "map_of s name = None" by (simp add: caches_keys_def map_of_eq_None_iff)
  with False show ?thesis by (simp add: caches_open_def generation_def map_add_def)
qed

lemma generation_storage_put:
  "generation (storage_put s name k r) name = map_option (\<lambda>c. cache_put c k r) (generation s name)"
  by (induction s) (auto simp: generation_def storage_put_def)

lemma generation_storage_put_other:
  "n \<noteq> name \<Longrightarrow> generation (storage_put s name k r) n = generation s n"
  by (induction s) (auto simp: generation_def storage_put_def)

lemma settle_single:
  "settle s [(name, k, r)] =
     (if storable r then storage_put (caches_open name s) name k r else caches_open name s)"
  by (simp add: settle_def)

lemma generation_settle_single:
  assumes "storable r"
  shows "\<exists>c. generation (settle s [(name, k, r)]) name = Some c \<and> cache_match c k = Some r"
proof -
  obtain c where "generation (caches_open name s) name = Some c"
    using generation_open by blast
  with assms show ?thesis
    by (simp add: settle_single generation_storage_put cache_match_put_same)
qed

text \<open>The deletions of the activate handler, taken together, are one filter of the storage.\<close>

lemma fold_delete:
  "fold (\<lambda>n s'. if P n then caches_delete n s' else s') ns s
     = filter (\<lambda>e. \<not> (fst e \<in> set ns \<and> P (fst e))) s"
proof (induction ns arbitrary: s)
  case Nil
  show ?case by simp
next
  case (Cons n ns)
  show ?case by (auto simp: Cons.IH caches_delete_def intro!: filter_cong)
qed

lemma cleanup_filter:
  "cleanup s = filter (\<lambda>e. fst e = CACHE_NAME \<or> fst e = STATIC_CACHE_NAME) s"
  unfolding cleanup_def fold_delete caches_keys_def
  by (rule filter_cong) auto

text \<open>The population of the install handler.\<close>

lemma fetch_all_fails:
  "\<exists>q\<in>set qs. fetch_fails net q \<Longrightarrow> fetch_all net qs = Inl TypeError"
proof (induction qs)
  case Nil
  then show ?case by simp
next
  case (Cons q qs)
  show ?case
  proof (cases "fetch_fails net q")
    case True
    then show ?thesis by (simp add: fetch_fails_def split: option.splits)
  next
    case False
    with Cons.prems have "\<exists>q\<in>set qs. fetch_fails net q" by simp
    then have "fetch_all net qs = Inl TypeError" by (rule Cons.IH)
    then show ?thesis by (simp split: option.splits)
  qed
qed

lemma fetch_all_succeeds:
  "\<forall>q\<in>set qs. \<not> fetch_fails net q \<Longrightarrow> fetch_all net qs = Inr (map (\<lambda>q. (q, the (net q))) qs)"
  by (induction qs) (auto simp: fetch_fails_def split: option.splits)

lemma population_fails:
  "\<exists>p\<in>set urlsToCache. fetch_fails net (request_of org p) \<Longrightarrow> population net org s = Inl TypeError"
proof -
  assume "\<exists>p\<in>set urlsToCache. fetch_fails net (request_of org p)"
  then have "\<exists>q\<in>set (map (request_of org) urlsToCache). fetch_fails net q" by simp
  then have "fetch_all net (map (request_of org) urlsToCache) = Inl TypeError"
    by (rule fetch_all_fails)
  then show ?thesis by (simp add: population_def cache_addAll_def)
qed

lemma fold_storage_put:
  "fold (\<lambda>(q, r) s'. storage_put s' name (url q) r) rs s
     = map (\<lambda>(n, c). if n = name then (n, fold (\<lambda>(q, r) c'. cache_put c' (url q) r) rs c) else (n, c)) s"
proof (induction rs arbitrary: s)
  case Nil
  show ?case by (induction s) auto
next
  case (Cons x rs)
  obtain q r where x: "x = (q, r)" by (cases x)
  have "fold (\<lambda>(q, r) s'. storage_put s' name (url q) r) (x # rs) s
          = fold (\<lambda>(q, r) s'. storage_put s' name (url q) r) rs (storage_put s name (url q) r)"
    by (simp add: x)
  also have "\<dots> = map (\<lambda>(n, c). if n = name
                then (n, fold (\<lambda>(q, r) c'. cache_put c' (url q) r) rs c) else (n, c))
              (storage_put s name (url q) r)"
    by (rule Cons.IH)
  also have "\<dots> = map (\<lambda>(n, c). if n = name
                then (n, fold (\<lambda>(q, r) c'. cache_put c' (url q) r) (x # rs) c) else (n, c)) s"
    by (induction s) (auto simp: storage_put_def x)
  finally show ?case .
qed

lemma location_of_inj: "location_of org p = location_of org p' \<Longrightarrow> p = p'"
  by (simp add: location_of_def)

lemma cache_match_fold_put:
  "p \<in> set ps \<Longrightarrow>
   cache_match (fold (\<lambda>(q, r) c'. cache_put c' (url q) r)
                  (map (\<lambda>q. (q, the (net q))) (map (request_of org) ps)) c) (location_of org p)
     = Some (the (net (request_of org p)))"
proof (induction ps arbitrary: p rule: rev_induct)
  case Nil
  then show ?case by simp
next
  case (snoc x xs)
  show ?case
  proof (cases "x = p")
    case True
    then show ?thesis by (simp add: request_of_def cache_match_put_same)
  next
    case False
    with snoc.prems have "p \<in> set xs" by simp
    moreover from False have "location_of org p \<noteq> location_of org x"
      by (auto dest: location_of_inj)
    ultimately show ?thesis
      using snoc.IH [of p] by (simp add: request_of_def cache_match_put_other)
  qed
qed

text \<open>The storage-wide lookup.\<close>

lemma caches_match_None_iff:
  "caches_match s k = None \<longleftrightarrow> (\<forall>(n, c)\<in>set s. cache_match c k = None)"
  by (induction s) (auto split: option.splits)

lemma caches_match_unique:
  "\<forall>(n, c)\<in>set s. cache_match c k = None \<or> cache_match c k = Some r \<Longrightarrow>
   \<exists>(n, c)\<in>set s. cache_match c k = Some r \<Longrightarrow> caches_match s k = Some r"
proof (induction s)
  case Nil
  then show ?case by simp
next
  case (Cons e s)
  obtain n c where e: "e = (n, c)" by (cases e)
  show ?case
  proof (cases "cache_match c k")
    case None
    with Cons.prems e have "\<exists>(n, c)\<in>set s. cache_match c k = Some r" by auto
    moreover from Cons.prems
    have "\<forall>(n, c)\<in>set s. cache_match c k = None \<or> cache_match c k = Some r" by simp
    ultimately have "caches_match s k = Some r" by (rule Cons.IH [rotated])
    with None e show ?thesis by simp
  next
    case (Some r')
    with Cons.prems(1) e have "r' = r" by auto
    with Some e show ?thesis by simp
  qed
qed

lemma name_in_open: "name \<in> fst ` set (caches_open name s)"
  by (auto simp: caches_open_def caches_keys_def)

lemma set_open: "set (caches_open name s) \<subseteq> set s \<union> {(name, [])}"
  by (auto simp: caches_open_def)

lemma caches_match_settle:
  assumes "\<forall>(n, c)\<in>set s. n \<noteq> name \<longrightarrow> cache_match c k = None" and st: "storable r"
  shows "caches_match (settle s [(name, k, r)]) k = Some r"
proof (rule caches_match_unique)
  show "\<forall>(n, c)\<in>set (settle s [(name, k, r)]). cache_match c k = None \<or> cache_match c k = Some r"
  proof (clarify)
    fix n c
    assume mem: "(n, c) \<in> set (settle s [(name, k, r)])" and ne: "cache_match c k \<noteq> Some r"
    then obtain c0 where c0: "(n, c0) \<in> set (caches_open name s)"
      and c: "c = (if n = name then cache_put c0 k r else c0)"
      by (auto simp: settle_single st storage_put_def split: if_splits)
    from c ne have "n \<noteq> name" by (auto simp: cache_match_put_same)
    with c0 set_open [of name s] have "(n, c0) \<in> set s" by auto
    with assms(1) \<open>n \<noteq> name\<close> c show "cache_match c k = None" by auto
  qed
next
  obtain c where "(name, c) \<in> set (caches_open name s)"
    using name_in_open [of name s] by auto
  then have "(name, cache_put c k r) \<in> set (settle s [(name, k, r)])"
    by (force simp: settle_single st storage_put_def)
  then show "\<exists>(n, c)\<in>set (settle s [(name, k, r)]). cache_match c k = Some r"
    by (force simp: cache_match_put_same)
qed

lemma caches_match_settle_miss:
  "caches_match s k = None \<Longrightarrow> storable r \<Longrightarrow> caches_match (settle s [(name, k, r)]) k = Some r"
  by (rule caches_match_settle) (auto simp: caches_match_None_iff)

text \<open>The storage after a successful population and the activation that follows.\<close>

lemma population_succeeds:
  assumes "\<forall>p\<in>set urlsToCache. \<not> fetch_fails net (request_of org p)"
  shows "population net org s =
     Inr (map (\<lambda>(n, c). if n = STATIC_CACHE_NAME
                 then (n, fold (\<lambda>(q, r) c'. cache_put c' (url q) r)
                            (map (\<lambda>q. (q, the (net q))) (map (request_of org) urlsToCache)) c)
                 else (n, c))
            (caches_open STATIC_CACHE_NAME s))"
proof -
  from assms have "\<forall>q\<in>set (map (request_of org) urlsToCache). \<not> fetch_fails net q" by simp
  then have "fetch_all net (map (request_of org) urlsToCache)
      = Inr (map (\<lambda>q. (q, the (net q))) (map (request_of org) urlsToCache))"
    by (rule fetch_all_succeeds)
  then show ?thesis
    by (simp only: population_def cache_addAll_def sum.case fold_storage_put)
qed

lemma installed_static_present:
  assumes ok: "\<forall>p\<in>set urlsToCache. \<not> fetch_fails net (request_of org p)"
    and p: "p \<in> set urlsToCache"
  shows "\<exists>c. (STATIC_CACHE_NAME, c) \<in> set (storage (snd (on_activate (snd (on_install net org w)))))
          \<and> cache_match c (location_of org p) = net (request_of org p)"
proof -
  let ?F = "fold (\<lambda>(q, r) c'. cache_put c' (url q) r)
              (map (\<lambda>q. (q, the (net q))) (map (request_of org) urlsToCache))"
  from ok p obtain r where r: "net (request_of org p) = Some r"
    by (auto simp: fetch_fails_def split: option.splits)
  obtain c0 where c0: "(STATIC_CACHE_NAME, c0) \<in> set (caches_open STATIC_CACHE_NAME (storage w))"
    using name_in_open [of STATIC_CACHE_NAME "storage w"] by auto
  then have "(STATIC_CACHE_NAME, ?F c0) \<in> set (storage (snd (on_install net org w)))"
    by (force simp: on_install_def population_succeeds [OF ok])
  then have "(STATIC_CACHE_NAME, ?F c0) \<in> set (storage (snd (on_activate (snd (on_install net org w)))))"
    by (simp add: on_activate_def cleanup_filter)
  moreover have "cache_match (?F c0) (location_of org p) = net (request_of org p)"
    using r cache_match_fold_put [OF p, of net org c0] by simp
  ultimately show ?thesis by blast
qed

lemma static_paths_not_data: "p \<in> set urlsToCache \<Longrightarrow> p \<notin> set DATA_FILES"
  by (auto simp: urlsToCache_def DATA_FILES_def)

text \<open>
  The storages the handlers produce: \<open>tidy\<close> is kept by install and by the writes of
  fetch events, activate turns a tidy storage into an active one, and in an active storage
  a key whose pathname is not a data path can only be found in the static cache.
\<close>

lemma names_differ: "CACHE_NAME \<noteq> STATIC_CACHE_NAME"
  by (simp add: CACHE_NAME_def STATIC_CACHE_NAME_def)

lemma cache_match_data_only:
  "data_keys_only c \<Longrightarrow> pathname k \<notin> set DATA_FILES \<Longrightarrow> cache_match c k = None"
  by (auto simp: data_keys_only_def cache_match_def list_all_iff map_of_eq_None_iff)

lemma caches_match_one_generation:
  "distinct (map fst s) \<Longrightarrow> \<forall>(n, c)\<in>set s. n \<noteq> name \<longrightarrow> cache_match c k = None \<Longrightarrow>
   caches_match s k = (case map_of s name of None \<Rightarrow> None | Some c \<Rightarrow> cache_match c k)"
proof (induction s)
  case Nil
  show ?case by simp
next
  case (Cons e s)
  obtain n c where e: "e = (n, c)" by (cases e)
  from Cons.prems have IH: "caches_match s k = (case map_of s name of None \<Rightarrow> None | Some c \<Rightarrow> cache_match c k)"
    by (intro Cons.IH) auto
  show ?case
  proof (cases "n = name")
    case True
    with Cons.prems(1) e have "name \<notin> fst ` set s" by simp
    with Cons.prems(2) have "\<forall>(n, c)\<in>set s. cache_match c k = None" by force
    then have "caches_match s k = None" by (simp add: caches_match_None_iff)
    with True e show ?thesis by (simp split: option.splits)
  next
    case False
    with Cons.prems(2) e have "cache_match c k = None" by simp
    with False e IH show ?thesis by simp
  qed
qed

lemma caches_match_active:
  assumes a: "active_storage s" and k: "pathname k \<notin> set DATA_FILES"
  shows "caches_match s k =
     (case generation s STATIC_CACHE_NAME of None \<Rightarrow> None | Some c \<Rightarrow> cache_match c k)"
  unfolding generation_def
proof (rule caches_match_one_generation)
  from a show "distinct (map fst s)"
    by (simp add: active_storage_def tidy_def caches_keys_def)
  show "\<forall>(n, c)\<in>set s. n \<noteq> STATIC_CACHE_NAME \<longrightarrow> cache_match c k = None"
  proof (clarify)
    fix n c
    assume m: "(n, c) \<in> set s" and ne: "n \<noteq> STATIC_CACHE_NAME"
    from a m have "n = CACHE_NAME \<or> n = STATIC_CACHE_NAME"
      by (force simp: active_storage_def caches_keys_def list_all_iff)
    with ne have "n = CACHE_NAME" by simp
    with a m have d: "data_keys_only c"
      by (force simp: active_storage_def tidy_def list_all_iff)
    from d k show "cache_match c k = None" by (rule cache_match_data_only)
  qed
qed

lemma keys_open: "set (caches_keys (caches_open name s)) = insert name (set (caches_keys s))"
  by (auto simp: caches_open_def caches_keys_def)

lemma tidy_open: "tidy s \<Longrightarrow> tidy (caches_open name s)"
  by (auto simp: tidy_def caches_open_def caches_keys_def data_keys_only_def)

lemma keys_storage_put: "caches_keys (storage_put s name k r) = caches_keys s"
  by (induction s) (auto simp: storage_put_def caches_keys_def)

lemma data_keys_only_put:
  "data_keys_only c \<Longrightarrow> pathname k \<in> set DATA_FILES \<Longrightarrow> data_keys_only (cache_put c k r)"
  by (auto simp: data_keys_only_def cache_put_def list_all_iff)

lemma tidy_storage_put:
  assumes "tidy s" and "name = CACHE_NAME \<longrightarrow> pathname k \<in> set DATA_FILES"
  shows "tidy (storage_put s name k r)"
proof -
  have "data_keys_only c'" if m: "(CACHE_NAME, c') \<in> set (storage_put s name k r)" for c'
  proof -
    from m obtain c where c: "(CACHE_NAME, c) \<in> set s"
      and c': "c' = (if CACHE_NAME = name then cache_put c k r else c)"
      by (auto simp: storage_put_def split: if_splits)
    from assms(1) c have "data_keys_only c"
      by (force simp: tidy_def list_all_iff)
    with assms(2) c' show ?thesis by (auto simp: data_keys_only_put)
  qed
  then have "list_all (\<lambda>e. if fst e = CACHE_NAME then data_keys_only (snd e) else True)
          (storage_put s name k r)"
    by (auto simp: list_all_iff)
  with assms(1) show ?thesis by (simp add: tidy_def keys_storage_put)
qed

lemma tidy_fold_put:
  "tidy s \<Longrightarrow> name \<noteq> CACHE_NAME \<Longrightarrow>
   tidy (fold (\<lambda>(q, r) s'. storage_put s' name (url q) r) rs s)"
proof (induction rs arbitrary: s)
  case Nil
  then show ?case by simp
next
  case (Cons x rs)
  obtain q r where x: "x = (q, r)" by (cases x)
  from Cons.prems have "tidy (storage_put s name (url q) r)"
    by (intro tidy_storage_put) auto
  with Cons.prems(2) show ?case by (simp add: x Cons.IH)
qed

lemma tidy_install: "tidy (storage w) \<Longrightarrow> tidy (storage (snd (on_install net org w)))"
  using names_differ
  by (auto simp: on_install_def population_def cache_addAll_def tidy_open tidy_fold_put
           split: sum.splits)

lemma active_cleanup: "tidy s \<Longrightarrow> active_storage (cleanup s)"
  by (auto simp: active_storage_def tidy_def cleanup_filter caches_keys_def list_all_iff
        distinct_map_filter)

lemma active_activate: "tidy (storage w) \<Longrightarrow> active_storage (storage (snd (on_activate w)))"
  by (simp add: on_activate_def active_cleanup)

lemma active_open:
  "active_storage s \<Longrightarrow> name = CACHE_NAME \<or> name = STATIC_CACHE_NAME \<Longrightarrow>
   active_storage (caches_open name s)"
  using keys_open [of name s]
  by (auto simp: active_storage_def tidy_open list_all_iff)

lemma active_storage_put:
  "active_storage s \<Longrightarrow> name = CACHE_NAME \<longrightarrow> pathname k \<in> set DATA_FILES \<Longrightarrow>
   active_storage (storage_put s name k r)"
  by (simp add: active_storage_def tidy_storage_put keys_storage_put)

lemma active_settle_fetch:
  assumes "active_storage s"
  shows "active_storage (settle s (detached (on_fetch net org s req)))"
proof (cases "isDataFile req")
  case True
  then have k: "pathname (url req) \<in> set DATA_FILES" by (simp add: isDataFile_iff)
  show ?thesis
  proof (cases "net req")
    case None
    with True assms show ?thesis
      by (simp add: on_fetch_def network_first_def settle_def split: option.splits)
  next
    case (Some r)
    with True assms k show ?thesis
      by (simp add: on_fetch_def network_first_def settle_single active_open active_storage_put)
  qed
next
  case False
  with assms names_differ show ?thesis
    by (auto simp: on_fetch_def cache_first_def settle_def settle_single active_open
          active_storage_put split: option.splits)
qed

lemma population_Inr_no_failure:
  "population net org s = Inr s' \<Longrightarrow> \<forall>p\<in>set urlsToCache. \<not> fetch_fails net (request_of org p)"
  using population_fails [of net org s] by auto

section \<open>Lifecycle: installation\<close>

text \<open>
  C8. The population of the static cache at install is one unit: when the fetch of any
  one path of \<open>urlsToCache\<close> fails, the whole population is rejected and stores nothing
  (the storage is as the opening of the static cache left it), the failure is written to
  the console and goes no further. Whether the population succeeded or not, the promise
  given to \<^verbatim>\<open>waitUntil\<close> is fulfilled and \<^verbatim>\<open>skipWaiting\<close> is called.
\<close>

theorem install_population_unit:
  "fst (on_install net org w) = Fulfilled \<and> skip_waiting (snd (on_install net org w)) \<and>
   ((\<exists>p\<in>set urlsToCache. fetch_fails net (request_of org p)) \<longrightarrow>
      population net org (storage w) = Inl TypeError \<and>
      storage (snd (on_install net org w)) = caches_open STATIC_CACHE_NAME (storage w) \<and>
      console (snd (on_install net org w)) = console w @ [(''Cache failed:'', TypeError)])"
  by (auto simp: on_install_def population_fails split: sum.splits)

theorem install_population_unit_witness:
  "(\<exists>p\<in>set urlsToCache. fetch_fails (failing_at ''/styles.css'') (request_of site p))
   \<and> fst (on_install (failing_at ''/styles.css'') site fresh) = Fulfilled
   \<and> skip_waiting (snd (on_install (failing_at ''/styles.css'') site fresh))
   \<and> storage (snd (on_install (failing_at ''/styles.css'') site fresh)) = [(STATIC_CACHE_NAME, [])]
   \<and> console (snd (on_install (failing_at ''/styles.css'') site fresh))
       = [(''Cache failed:'', TypeError)]"
proof -
  have h: "\<exists>p\<in>set urlsToCache. fetch_fails (failing_at ''/styles.css'') (request_of site p)"
    by (simp add: urlsToCache_def fetch_fails_def failing_at_def request_of_def location_of_def)
  show ?thesis
    using h install_population_unit [of "failing_at ''/styles.css''" site fresh]
    by (simp add: caches_open_def caches_keys_def fresh_def)
qed

section \<open>Lifecycle: activation\<close>

text \<open>
  C1, as amended. After the activate handler the names present in the storage are the
  names that were present before and are one of the two current names: every other name
  has been deleted, neither current name is ever deleted, and a current name that was
  absent before is still absent (the handler deletes caches and creates none).
\<close>

theorem activate_names:
  "set (caches_keys (storage (snd (on_activate w))))
     = set (caches_keys (storage w)) \<inter> {STATIC_CACHE_NAME, CACHE_NAME}"
  by (auto simp: on_activate_def cleanup_filter caches_keys_def)

text \<open>
  C1 as stated fails: a storage left by the earlier worker revision and the install of
  this one holds \<^verbatim>\<open>friday-saga-v1\<close> and the static cache; after activation the static
  cache alone remains, not the pair of current names.
\<close>

theorem activate_names_counterexample:
  "set (caches_keys (storage (snd (on_activate
      \<lparr>storage = [(''friday-saga-v1'', []), (''friday-saga-static-v2'', [])],
       console = [], skip_waiting = True, claimed = False\<rparr>))))
     \<noteq> {STATIC_CACHE_NAME, CACHE_NAME}"
  by (simp add: on_activate_def cleanup_def caches_keys_def caches_delete_def
        CACHE_NAME_def STATIC_CACHE_NAME_def)

text \<open>
  C9. Activation is idempotent: a second run of the activate handler, with no install in
  between, leaves the storage, and so the set of cache names, as the first run left it.
\<close>

theorem activate_idempotent:
  "storage (snd (on_activate (snd (on_activate w)))) = storage (snd (on_activate w))
   \<and> set (caches_keys (storage (snd (on_activate (snd (on_activate w))))))
       = set (caches_keys (storage (snd (on_activate w))))"
  by (simp add: on_activate_def cleanup_filter)

section \<open>Routing\<close>

text \<open>
  C7. A request is handled by the network-first policy exactly when the pathname of its
  URL is an element of \<open>DATA_FILES\<close>, and by the cache-first policy otherwise; the query
  string has no part in the decision.
\<close>

theorem router_exact_path:
  "on_fetch net org s req =
     (if pathname (url req) \<in> set DATA_FILES then network_first net s req
      else cache_first net org s req)
   \<and> isDataFile (req\<lparr>url := (url req)\<lparr>search := q\<rparr>\<rparr>) = isDataFile req"
  by (simp add: on_fetch_def isDataFile_iff)

theorem router_exact_path_witness:
  "on_fetch down site [] (jokes ''?_t=1'') = network_first down [] (jokes ''?_t=1'')
   \<and> on_fetch down site [] (asset ''/data/jokes.json.bak'' []) = cache_first down site [] (asset ''/data/jokes.json.bak'' [])
   \<and> on_fetch down site [] (asset ''/data'' []) = cache_first down site [] (asset ''/data'' [])
   \<and> on_fetch down site [] (asset ''/api/videos'' []) = cache_first down site [] (asset ''/api/videos'' [])"
  using router_exact_path [of down site "[]" "jokes ''?_t=1''" "[]"]
    router_exact_path [of down site "[]" "asset ''/data/jokes.json.bak'' []" "[]"]
    router_exact_path [of down site "[]" "asset ''/data'' []" "[]"]
    router_exact_path [of down site "[]" "asset ''/api/videos'' []" "[]"]
  by (simp add: jokes_def asset_def location_of_def DATA_FILES_def)

section \<open>Network-first policy\<close>

text \<open>
  C2. For a request with a data path whose network fetch fails, the handler answers with
  the stored response of the request's key when the storage has one, and otherwise with
  a response of status 503 and body \<^verbatim>\<open>Offline\<close>; in both cases there is a response, so the
  failure does not reach the caller.
\<close>

theorem data_offline_fallback:
  "isDataFile req \<Longrightarrow> net req = None \<Longrightarrow>
   (\<forall>r. caches_match s (url req) = Some r \<longrightarrow> responded (on_fetch net org s req) = Some r) \<and>
   (caches_match s (url req) = None \<longrightarrow>
      responded (on_fetch net org s req) = Some \<lparr>status = 503, body = ''Offline'', vary_star = False\<rparr>) \<and>
   responded (on_fetch net org s req) \<noteq> None"
  by (simp add: on_fetch_def network_first_def offline_def split: option.splits)

theorem data_offline_fallback_witness:
  "isDataFile (jokes ''?_t=1'') \<and> down (jokes ''?_t=1'') = None
   \<and> responded (on_fetch down site
         [(CACHE_NAME, [(url (jokes ''?_t=1''), \<lparr>status = 200, body = ''[1]'', vary_star = False\<rparr>)])]
         (jokes ''?_t=1'')) = Some \<lparr>status = 200, body = ''[1]'', vary_star = False\<rparr>
   \<and> responded (on_fetch down site [] (jokes ''?_t=1''))
       = Some \<lparr>status = 503, body = ''Offline'', vary_star = False\<rparr>"
proof -
  have d: "isDataFile (jokes ''?_t=1'')"
    by (simp add: isDataFile_def jokes_def DATA_FILES_def)
  have n: "down (jokes ''?_t=1'') = None"
    by (simp add: down_def)
  show ?thesis
    using d n
      data_offline_fallback [where net = down and org = site and req = "jokes ''?_t=1''"
        and s = "[(CACHE_NAME, [(url (jokes ''?_t=1''), \<lparr>status = 200, body = ''[1]'', vary_star = False\<rparr>)])]", OF d n]
      data_offline_fallback [where net = down and org = site and req = "jokes ''?_t=1''"
        and s = "[]", OF d n]
    by (simp add: cache_match_def)
qed

text \<open>
  C3, as amended. For a request with a data path whose network fetch succeeds, the
  response handed to the caller is the network response itself, and the only cache write
  is a started, not awaited, put of that same response into the data cache under the
  request's key. Once that write has ended the data cache holds the response under that
  key, unless the response is one that a cache refuses (status 206, or \<^verbatim>\<open>Vary: *\<close>):
  then the put is rejected and the storage is as the opening of the data cache left it.
\<close>

theorem data_network_success:
  "isDataFile req \<Longrightarrow> net req = Some r \<Longrightarrow>
   responded (on_fetch net org s req) = Some r \<and>
   detached (on_fetch net org s req) = [(CACHE_NAME, url req, r)] \<and>
   (storable r \<longrightarrow>
      (\<exists>c. generation (settle s (detached (on_fetch net org s req))) CACHE_NAME = Some c
           \<and> cache_match c (url req) = Some r)) \<and>
   (\<not> storable r \<longrightarrow>
      settle s (detached (on_fetch net org s req)) = caches_open CACHE_NAME s)"
proof -
  assume d: "isDataFile req" and n: "net req = Some r"
  then have w: "detached (on_fetch net org s req) = [(CACHE_NAME, url req, r)]"
    by (simp add: on_fetch_def network_first_def)
  from d n have a: "responded (on_fetch net org s req) = Some r"
    by (simp add: on_fetch_def network_first_def)
  have b: "storable r \<longrightarrow>
      (\<exists>c. generation (settle s (detached (on_fetch net org s req))) CACHE_NAME = Some c
           \<and> cache_match c (url req) = Some r)"
    unfolding w by (auto intro: generation_settle_single)
  have c: "\<not> storable r \<longrightarrow>
      settle s (detached (on_fetch net org s req)) = caches_open CACHE_NAME s"
    unfolding w by (simp add: settle_single)
  from a w b c show ?thesis by blast
qed

theorem data_network_success_witness:
  "isDataFile (jokes ''?_t=1'')
   \<and> storable \<lparr>status = 200, body = ''[1]'', vary_star = False\<rparr>
   \<and> responded (on_fetch (answering \<lparr>status = 200, body = ''[1]'', vary_star = False\<rparr>) site []
        (jokes ''?_t=1'')) = Some \<lparr>status = 200, body = ''[1]'', vary_star = False\<rparr>
   \<and> detached (on_fetch (answering \<lparr>status = 200, body = ''[1]'', vary_star = False\<rparr>) site []
        (jokes ''?_t=1''))
       = [(CACHE_NAME, url (jokes ''?_t=1''), \<lparr>status = 200, body = ''[1]'', vary_star = False\<rparr>)]
   \<and> generation (settle [] (detached (on_fetch
          (answering \<lparr>status = 200, body = ''[1]'', vary_star = False\<rparr>) site [] (jokes ''?_t=1''))))
        CACHE_NAME
       = Some [(url (jokes ''?_t=1''), \<lparr>status = 200, body = ''[1]'', vary_star = False\<rparr>)]"
proof -
  let ?r = "\<lparr>status = 200, body = ''[1]'', vary_star = False\<rparr>"
  have d: "isDataFile (jokes ''?_t=1'')"
    by (simp add: isDataFile_def jokes_def DATA_FILES_def)
  have n: "answering ?r (jokes ''?_t=1'') = Some ?r"
    by (simp add: answering_def)
  have st: "storable ?r"
    by (simp add: storable_def)
  note T = data_network_success [where net = "answering ?r" and org = site
      and req = "jokes ''?_t=1''" and s = "[]" and r = ?r, OF d n]
  from T have a: "responded (on_fetch (answering ?r) site [] (jokes ''?_t=1'')) = Some ?r"
    by blast
  from T have w: "detached (on_fetch (answering ?r) site [] (jokes ''?_t=1''))
      = [(CACHE_NAME, url (jokes ''?_t=1''), ?r)]"
    by blast
  from T st obtain c where
    "generation (settle [] (detached (on_fetch (answering ?r) site [] (jokes ''?_t=1'')))) CACHE_NAME
       = Some c"
    by blast
  moreover have "generation (settle [] [(CACHE_NAME, url (jokes ''?_t=1''), ?r)]) CACHE_NAME
       = Some [(url (jokes ''?_t=1''), ?r)]"
    by (simp add: settle_def storable_def caches_open_def caches_keys_def storage_put_def
          cache_put_def generation_def)
  ultimately have g: "generation (settle [] (detached (on_fetch (answering ?r) site []
      (jokes ''?_t=1'')))) CACHE_NAME = Some [(url (jokes ''?_t=1''), ?r)]"
    by (simp add: w)
  from d st a w g show ?thesis by blast
qed

text \<open>
  C3 as stated fails for a partial response. The network answers the request for the
  jokes feed with status 206: the response is handed to the caller, the data cache is
  created, the put is rejected, and the cache stays empty, so that the same request with
  the network down is answered with the 503 response.
\<close>

theorem data_network_success_counterexample:
  "isDataFile (jokes ''?_t=1'')
   \<and> responded (on_fetch (answering \<lparr>status = 206, body = ''[1'', vary_star = False\<rparr>) site []
        (jokes ''?_t=1'')) = Some \<lparr>status = 206, body = ''[1'', vary_star = False\<rparr>
   \<and> settle [] (detached (on_fetch (answering \<lparr>status = 206, body = ''[1'', vary_star = False\<rparr>)
        site [] (jokes ''?_t=1''))) = [(CACHE_NAME, [])]
   \<and> responded (on_fetch down site
        (settle [] (detached (on_fetch (answering \<lparr>status = 206, body = ''[1'', vary_star = False\<rparr>)
           site [] (jokes ''?_t=1''))))
        (jokes ''?_t=1'')) = Some \<lparr>status = 503, body = ''Offline'', vary_star = False\<rparr>"
  by (simp add: on_fetch_def network_first_def isDataFile_def DATA_FILES_def jokes_def
        answering_def down_def settle_def caches_open_def caches_keys_def storable_def
        cache_match_def offline_def)

text \<open>
  C4 does not hold of the worker: the data cache is keyed by the whole URL, query string
  included. After the feed has been fetched and stored as \<^verbatim>\<open>/data/jokes.json?_t=1\<close>, a
  request for that same URL with the network down is answered from the cache, but a
  request for \<^verbatim>\<open>/data/jokes.json?_t=2\<close>, or for the path with no query string, is
  answered with the 503 response: the stored entry is not found.
\<close>

theorem data_query_in_key:
  "responded (on_fetch down site
      (settle [] (detached (on_fetch (answering \<lparr>status = 200, body = ''[1]'', vary_star = False\<rparr>) site []
                              (jokes ''?_t=1''))))
      (jokes ''?_t=1'')) = Some \<lparr>status = 200, body = ''[1]'', vary_star = False\<rparr>
   \<and> responded (on_fetch down site
      (settle [] (detached (on_fetch (answering \<lparr>status = 200, body = ''[1]'', vary_star = False\<rparr>) site []
                              (jokes ''?_t=1''))))
      (jokes ''?_t=2'')) = Some \<lparr>status = 503, body = ''Offline'', vary_star = False\<rparr>
   \<and> responded (on_fetch down site
      (settle [] (detached (on_fetch (answering \<lparr>status = 200, body = ''[1]'', vary_star = False\<rparr>) site []
                              (jokes ''?_t=1''))))
      (jokes [])) = Some \<lparr>status = 503, body = ''Offline'', vary_star = False\<rparr>"
  by (simp add: on_fetch_def network_first_def isDataFile_def DATA_FILES_def jokes_def
        answering_def down_def settle_def caches_open_def caches_keys_def storage_put_def
        cache_put_def cache_match_def offline_def storable_def)

section \<open>Cache-first policy\<close>

text \<open>
  C6. For a request routed to the cache-first policy, when the cache lookup misses and the
  network fetch fails: a request whose destination is \<^verbatim>\<open>document\<close> is answered with what
  the storage holds for \<^verbatim>\<open>/index.html\<close> of the worker's origin, whatever path was
  requested; any other request gets no response at all, and no cache write is started.
\<close>

theorem static_miss_network_failure:
  "\<not> isDataFile req \<Longrightarrow> caches_match s (url req) = None \<Longrightarrow> net req = None \<Longrightarrow>
   responded (on_fetch net org s req) =
     (if destination req = ''document''
      then caches_match s (location_of org ''/index.html'') else None)
   \<and> detached (on_fetch net org s req) = []"
  by (simp add: on_fetch_def cache_first_def)

theorem static_miss_network_failure_witness:
  "\<not> isDataFile (asset ''/about'' ''document'')
   \<and> \<not> isDataFile (asset ''/logo.png'' ''image'')
   \<and> responded (on_fetch down site
         [(STATIC_CACHE_NAME, [(location_of site ''/index.html'', \<lparr>status = 200, body = ''<html>'', vary_star = False\<rparr>)])]
         (asset ''/about'' ''document'')) = Some \<lparr>status = 200, body = ''<html>'', vary_star = False\<rparr>
   \<and> responded (on_fetch down site
         [(STATIC_CACHE_NAME, [(location_of site ''/index.html'', \<lparr>status = 200, body = ''<html>'', vary_star = False\<rparr>)])]
         (asset ''/logo.png'' ''image'')) = None"
proof -
  let ?s = "[(STATIC_CACHE_NAME, [(location_of site ''/index.html'', \<lparr>status = 200, body = ''<html>'', vary_star = False\<rparr>)])]"
  have d1: "\<not> isDataFile (asset ''/about'' ''document'')"
    by (simp add: isDataFile_def asset_def location_of_def DATA_FILES_def)
  have d2: "\<not> isDataFile (asset ''/logo.png'' ''image'')"
    by (simp add: isDataFile_def asset_def location_of_def DATA_FILES_def)
  have m1: "caches_match ?s (url (asset ''/about'' ''document'')) = None"
    by (simp add: cache_match_def asset_def location_of_def)
  have m2: "caches_match ?s (url (asset ''/logo.png'' ''image'')) = None"
    by (simp add: cache_match_def asset_def location_of_def)
  have n1: "down (asset ''/about'' ''document'') = None" by (simp add: down_def)
  have n2: "down (asset ''/logo.png'' ''image'') = None" by (simp add: down_def)
  show ?thesis
    using d1 d2
      static_miss_network_failure [where net = down and org = site and s = ?s
        and req = "asset ''/about'' ''document''", OF d1 m1 n1]
      static_miss_network_failure [where net = down and org = site and s = ?s
        and req = "asset ''/logo.png'' ''image''", OF d2 m2 n2]
    by (simp add: cache_match_def asset_def)
qed

text \<open>
  C5, as amended. In an active storage, a request routed to the cache-first policy is
  looked up in the static cache alone: what \<^verbatim>\<open>caches.match\<close> finds in the whole storage
  is what the static cache holds under the key. When the static cache has an entry under
  the key, that stored response is returned at once, with no network request and no cache
  write. After an install whose population succeeded, followed by activate, the static
  cache holds under every path of \<open>urlsToCache\<close> the response fetched at install, and a
  request for such a path is answered with it and no network request.
\<close>

theorem static_hit_without_network:
  "(active_storage s \<longrightarrow> \<not> isDataFile req \<longrightarrow>
      caches_match s (url req)
        = (case generation s STATIC_CACHE_NAME of None \<Rightarrow> None | Some c0 \<Rightarrow> cache_match c0 (url req))
      \<and> (generation s STATIC_CACHE_NAME = Some c \<longrightarrow> cache_match c (url req) = Some r \<longrightarrow>
          on_fetch net org s req = \<lparr>responded = Some r, fetched = [], detached = []\<rparr>))
   \<and> (tidy (storage w) \<longrightarrow> population net0 org (storage w) = Inr s' \<longrightarrow>
      p \<in> set urlsToCache \<longrightarrow> url req = location_of org p \<longrightarrow>
      active_storage (storage (snd (on_activate (snd (on_install net0 org w)))))
      \<and> (\<exists>c. generation (storage (snd (on_activate (snd (on_install net0 org w))))) STATIC_CACHE_NAME
                = Some c
             \<and> cache_match c (url req) = net0 (request_of org p))
      \<and> net0 (request_of org p) \<noteq> None
      \<and> on_fetch net org (storage (snd (on_activate (snd (on_install net0 org w))))) req
          = \<lparr>responded = net0 (request_of org p), fetched = [], detached = []\<rparr>)"
proof (intro conjI impI)
  assume a: "active_storage s" and d: "\<not> isDataFile req"
  then show m: "caches_match s (url req)
      = (case generation s STATIC_CACHE_NAME of None \<Rightarrow> None | Some c0 \<Rightarrow> cache_match c0 (url req))"
    by (simp add: caches_match_active isDataFile_iff)
  assume "generation s STATIC_CACHE_NAME = Some c" and "cache_match c (url req) = Some r"
  with m have "caches_match s (url req) = Some r" by simp
  with d show "on_fetch net org s req = \<lparr>responded = Some r, fetched = [], detached = []\<rparr>"
    by (simp add: on_fetch_def cache_first_def)
next
  let ?s = "storage (snd (on_activate (snd (on_install net0 org w))))"
  assume t: "tidy (storage w)" and pop: "population net0 org (storage w) = Inr s'"
    and p: "p \<in> set urlsToCache" and u: "url req = location_of org p"
  from pop have ok: "\<forall>p\<in>set urlsToCache. \<not> fetch_fails net0 (request_of org p)"
    by (rule population_Inr_no_failure)
  from p u have d: "\<not> isDataFile req"
    by (auto simp: isDataFile_iff location_of_def dest: static_paths_not_data)
  from t show a: "active_storage ?s"
    by (simp add: tidy_install active_activate)
  from ok p show n: "net0 (request_of org p) \<noteq> None"
    by (auto simp: fetch_fails_def split: option.splits)
  from installed_static_present [OF ok p, of w] obtain c where
    mem: "(STATIC_CACHE_NAME, c) \<in> set ?s"
    and hit: "cache_match c (location_of org p) = net0 (request_of org p)"
    by blast
  from a have "distinct (map fst ?s)"
    by (simp add: active_storage_def tidy_def caches_keys_def)
  with mem have g: "generation ?s STATIC_CACHE_NAME = Some c"
    by (simp add: generation_def)
  with hit u show "\<exists>c. generation ?s STATIC_CACHE_NAME = Some c
      \<and> cache_match c (url req) = net0 (request_of org p)"
    by simp
  from a d g hit u have "caches_match ?s (url req) = net0 (request_of org p)"
    by (simp add: caches_match_active isDataFile_iff)
  with n d show "on_fetch net org ?s req
      = \<lparr>responded = net0 (request_of org p), fetched = [], detached = []\<rparr>"
    by (auto simp: on_fetch_def cache_first_def)
qed

theorem static_hit_without_network_witness:
  "\<not> isDataFile (asset ''/styles.css'' ''style'')
   \<and> active_storage
        [(STATIC_CACHE_NAME,
          [(location_of site ''/styles.css'', \<lparr>status = 200, body = ''ok'', vary_star = False\<rparr>)])]
   \<and> on_fetch down site
        [(STATIC_CACHE_NAME,
          [(location_of site ''/styles.css'', \<lparr>status = 200, body = ''ok'', vary_star = False\<rparr>)])]
        (asset ''/styles.css'' ''style'')
       = \<lparr>responded = Some \<lparr>status = 200, body = ''ok'', vary_star = False\<rparr>,
          fetched = [], detached = []\<rparr>
   \<and> tidy (storage fresh)
   \<and> ''/styles.css'' \<in> set urlsToCache
   \<and> on_fetch down site
        (storage (snd (on_activate (snd (on_install
           (answering \<lparr>status = 200, body = ''ok'', vary_star = False\<rparr>) site fresh)))))
        (asset ''/styles.css'' ''style'')
       = \<lparr>responded = Some \<lparr>status = 200, body = ''ok'', vary_star = False\<rparr>,
          fetched = [], detached = []\<rparr>"
proof -
  let ?r = "\<lparr>status = 200, body = ''ok'', vary_star = False\<rparr>"
  let ?q = "asset ''/styles.css'' ''style''"
  let ?c = "[(location_of site ''/styles.css'', ?r)]"
  let ?s = "[(STATIC_CACHE_NAME, ?c)]"
  have d: "\<not> isDataFile ?q"
    by (simp add: isDataFile_def asset_def location_of_def DATA_FILES_def)
  have a: "active_storage ?s"
    by (simp add: active_storage_def tidy_def caches_keys_def CACHE_NAME_def STATIC_CACHE_NAME_def)
  have g: "generation ?s STATIC_CACHE_NAME = Some ?c"
    by (simp add: generation_def)
  have h: "cache_match ?c (url ?q) = Some ?r"
    by (simp add: cache_match_def asset_def)
  have t: "tidy (storage fresh)"
    by (simp add: tidy_def caches_keys_def fresh_def)
  have p: "''/styles.css'' \<in> set urlsToCache"
    by (simp add: urlsToCache_def)
  have u: "url ?q = location_of site ''/styles.css''"
    by (simp add: asset_def)
  have "\<forall>p\<in>set urlsToCache. \<not> fetch_fails (answering ?r) (request_of site p)"
    by (simp add: fetch_fails_def answering_def accepted_def ok_def storable_def)
  then obtain s' where pop: "population (answering ?r) site (storage fresh) = Inr s'"
    using population_succeeds by blast
  note T = static_hit_without_network [where s = ?s and req = ?q and c = ?c and r = ?r
      and net = down and org = site and w = fresh and net0 = "answering ?r" and s' = s'
      and p = "''/styles.css''"]
  from T a d g h have x: "on_fetch down site ?s ?q = \<lparr>responded = Some ?r, fetched = [], detached = []\<rparr>"
    by blast
  from T t pop p u have "on_fetch down site
        (storage (snd (on_activate (snd (on_install (answering ?r) site fresh))))) ?q
      = \<lparr>responded = answering ?r (request_of site ''/styles.css''), fetched = [], detached = []\<rparr>"
    by blast
  then have y: "on_fetch down site
        (storage (snd (on_activate (snd (on_install (answering ?r) site fresh))))) ?q
      = \<lparr>responded = Some ?r, fetched = [], detached = []\<rparr>"
    by (simp add: answering_def)
  from d a x t p y show ?thesis by blast
qed

text \<open>
  C5 as stated fails when the population fails. With the network down at install the
  population is rejected and the rejection swallowed; install and activate complete with
  an empty static cache, and the request for \<^verbatim>\<open>/styles.css\<close> that follows misses and
  goes to the network.
\<close>

theorem static_hit_without_network_counterexample:
  "''/styles.css'' \<in> set urlsToCache
   \<and> tidy (storage fresh)
   \<and> on_install down site fresh
       = (Fulfilled, \<lparr>storage = [(STATIC_CACHE_NAME, [])], console = [(''Cache failed:'', TypeError)],
            skip_waiting = True, claimed = False\<rparr>)
   \<and> storage (snd (on_activate (snd (on_install down site fresh)))) = [(STATIC_CACHE_NAME, [])]
   \<and> \<not> isDataFile (asset ''/styles.css'' ''style'')
   \<and> fetched (on_fetch (answering \<lparr>status = 200, body = ''ok'', vary_star = False\<rparr>) site
        (storage (snd (on_activate (snd (on_install down site fresh)))))
        (asset ''/styles.css'' ''style'')) = [asset ''/styles.css'' ''style'']"
proof -
  have i: "on_install down site fresh
      = (Fulfilled, \<lparr>storage = [(STATIC_CACHE_NAME, [])], console = [(''Cache failed:'', TypeError)],
           skip_waiting = True, claimed = False\<rparr>)"
    by (simp add: on_install_def population_def cache_addAll_def urlsToCache_def down_def
          caches_open_def caches_keys_def fresh_def)
  have a: "storage (snd (on_activate (snd (on_install down site fresh)))) = [(STATIC_CACHE_NAME, [])]"
    by (simp add: i on_activate_def cleanup_filter)
  have d: "\<not> isDataFile (asset ''/styles.css'' ''style'')"
    by (simp add: isDataFile_def asset_def location_of_def DATA_FILES_def)
  have p: "''/styles.css'' \<in> set urlsToCache"
    by (simp add: urlsToCache_def)
  have t: "tidy (storage fresh)"
    by (simp add: tidy_def caches_keys_def fresh_def)
  have n: "fetched (on_fetch (answering \<lparr>status = 200, body = ''ok'', vary_star = False\<rparr>) site
        (storage (snd (on_activate (snd (on_install down site fresh)))))
        (asset ''/styles.css'' ''style'')) = [asset ''/styles.css'' ''style'']"
    using d by (simp add: a on_fetch_def cache_first_def cache_match_def answering_def)
  from p t i a d n show ?thesis by blast
qed

section \<open>Responses of any status are written\<close>

text \<open>
  C10, as amended. Neither policy looks at the status of a network response before it
  writes it: the network-first policy starts the put of every network response into the
  data cache, and the cache-first policy, after a miss, the put of every network response
  into the static cache. The cache stores the response under the request's key whatever
  its status, except a response that it refuses (status 206, or \<^verbatim>\<open>Vary: *\<close>). A later
  request for the same URL is then answered with the stored response: by the cache-first
  policy as a hit with no network request, and by the network-first policy when the
  network is down (and no other cache holds an entry under that key). So a 404 or a 500 is
  cached and served again.
\<close>

theorem stores_any_status:
  "(isDataFile req \<longrightarrow> net req = Some r \<longrightarrow>
      detached (on_fetch net org s req) = [(CACHE_NAME, url req, r)]
      \<and> (storable r \<longrightarrow>
           (\<exists>c. generation (settle s (detached (on_fetch net org s req))) CACHE_NAME = Some c
                \<and> cache_match c (url req) = Some r)
           \<and> ((\<forall>(n, c)\<in>set s. n \<noteq> CACHE_NAME \<longrightarrow> cache_match c (url req) = None) \<longrightarrow>
                later req = None \<longrightarrow>
                responded (on_fetch later org (settle s (detached (on_fetch net org s req))) req)
                  = Some r)))
   \<and> (\<not> isDataFile req \<longrightarrow> caches_match s (url req) = None \<longrightarrow> net req = Some r \<longrightarrow>
      detached (on_fetch net org s req) = [(STATIC_CACHE_NAME, url req, r)]
      \<and> (storable r \<longrightarrow>
           (\<exists>c. generation (settle s (detached (on_fetch net org s req))) STATIC_CACHE_NAME = Some c
                \<and> cache_match c (url req) = Some r)
           \<and> on_fetch later org (settle s (detached (on_fetch net org s req))) req
                = \<lparr>responded = Some r, fetched = [], detached = []\<rparr>))"
proof (intro conjI impI)
  assume d: "isDataFile req" and n: "net req = Some r"
  then show w: "detached (on_fetch net org s req) = [(CACHE_NAME, url req, r)]"
    by (simp add: on_fetch_def network_first_def)
  assume st: "storable r"
  then show "\<exists>c. generation (settle s (detached (on_fetch net org s req))) CACHE_NAME = Some c
             \<and> cache_match c (url req) = Some r"
    unfolding w by (rule generation_settle_single)
  assume "\<forall>(n, c)\<in>set s. n \<noteq> CACHE_NAME \<longrightarrow> cache_match c (url req) = None"
  then have hit: "caches_match (settle s [(CACHE_NAME, url req, r)]) (url req) = Some r"
    using st by (rule caches_match_settle)
  assume "later req = None"
  with d have "responded (on_fetch later org s' req)
      = (case caches_match s' (url req) of Some c \<Rightarrow> Some c | None \<Rightarrow> Some offline)" for s'
    by (simp add: on_fetch_def network_first_def split: option.splits)
  with hit show "responded (on_fetch later org (settle s (detached (on_fetch net org s req))) req) = Some r"
    by (simp add: w)
next
  assume d: "\<not> isDataFile req" and m: "caches_match s (url req) = None" and n: "net req = Some r"
  then show w: "detached (on_fetch net org s req) = [(STATIC_CACHE_NAME, url req, r)]"
    by (simp add: on_fetch_def cache_first_def)
  assume st: "storable r"
  then show "\<exists>c. generation (settle s (detached (on_fetch net org s req))) STATIC_CACHE_NAME = Some c
             \<and> cache_match c (url req) = Some r"
    unfolding w by (rule generation_settle_single)
  from m st have "caches_match (settle s [(STATIC_CACHE_NAME, url req, r)]) (url req) = Some r"
    by (rule caches_match_settle_miss)
  then have "on_fetch later org (settle s [(STATIC_CACHE_NAME, url req, r)]) req
           = \<lparr>responded = Some r, fetched = [], detached = []\<rparr>"
    using d by (simp add: on_fetch_def cache_first_def)
  then show "on_fetch later org (settle s (detached (on_fetch net org s req))) req
           = \<lparr>responded = Some r, fetched = [], detached = []\<rparr>"
    by (simp add: w)
qed

theorem stores_any_status_witness:
  "isDataFile (jokes ''?_t=1'') \<and> \<not> isDataFile (asset ''/missing.css'' ''style'')
   \<and> storable \<lparr>status = 404, body = ''Not Found'', vary_star = False\<rparr>
   \<and> storable \<lparr>status = 500, body = ''Server Error'', vary_star = False\<rparr>
   \<and> responded (on_fetch down site
        (settle [] (detached (on_fetch
           (answering \<lparr>status = 404, body = ''Not Found'', vary_star = False\<rparr>) site []
           (jokes ''?_t=1''))))
        (jokes ''?_t=1'')) = Some \<lparr>status = 404, body = ''Not Found'', vary_star = False\<rparr>
   \<and> on_fetch down site
        (settle [] (detached (on_fetch
           (answering \<lparr>status = 500, body = ''Server Error'', vary_star = False\<rparr>) site []
           (asset ''/missing.css'' ''style''))))
        (asset ''/missing.css'' ''style'')
       = \<lparr>responded = Some \<lparr>status = 500, body = ''Server Error'', vary_star = False\<rparr>,
          fetched = [], detached = []\<rparr>"
proof -
  let ?r404 = "\<lparr>status = 404, body = ''Not Found'', vary_star = False\<rparr>"
  let ?r500 = "\<lparr>status = 500, body = ''Server Error'', vary_star = False\<rparr>"
  have d1: "isDataFile (jokes ''?_t=1'')"
    by (simp add: isDataFile_def jokes_def DATA_FILES_def)
  have d2: "\<not> isDataFile (asset ''/missing.css'' ''style'')"
    by (simp add: isDataFile_def asset_def location_of_def DATA_FILES_def)
  have s1: "storable ?r404" by (simp add: storable_def)
  have s2: "storable ?r500" by (simp add: storable_def)
  have n1: "answering ?r404 (jokes ''?_t=1'') = Some ?r404"
    by (simp add: answering_def)
  have n2: "answering ?r500 (asset ''/missing.css'' ''style'') = Some ?r500"
    by (simp add: answering_def)
  have e: "\<forall>(n, c)\<in>set ([] :: cache_storage). n \<noteq> CACHE_NAME \<longrightarrow> cache_match c (url (jokes ''?_t=1'')) = None"
    by simp
  have l: "down (jokes ''?_t=1'') = None"
    by (simp add: down_def)
  have m: "caches_match [] (url (asset ''/missing.css'' ''style'')) = None"
    by simp
  have a: "responded (on_fetch down site
        (settle [] (detached (on_fetch (answering ?r404) site [] (jokes ''?_t=1'')))) (jokes ''?_t=1''))
      = Some ?r404"
    using stores_any_status [where req = "jokes ''?_t=1''" and s = "[]" and org = site
        and later = down and net = "answering ?r404" and r = ?r404] d1 n1 s1 e l
    by blast
  have b: "on_fetch down site
        (settle [] (detached (on_fetch (answering ?r500) site [] (asset ''/missing.css'' ''style''))))
        (asset ''/missing.css'' ''style'')
      = \<lparr>responded = Some ?r500, fetched = [], detached = []\<rparr>"
    using stores_any_status [where req = "asset ''/missing.css'' ''style''" and s = "[]"
        and org = site and later = down and net = "answering ?r500" and r = ?r500] d2 n2 s2 m
    by blast
  from d1 d2 s1 s2 a b show ?thesis by blast
qed

text \<open>
  C10 as stated fails at status 206. Both policies start the put of a partial response,
  the cache rejects it and stays empty; the later request for the data path with the
  network down is answered with the 503 response, and the later request for the static
  path is a miss that goes to the network again.
\<close>

theorem stores_any_status_counterexample:
  "isDataFile (jokes ''?_t=1'') \<and> \<not> isDataFile (asset ''/intro.mp4'' ''video'')
   \<and> settle [] (detached (on_fetch (answering \<lparr>status = 206, body = ''[1'', vary_star = False\<rparr>)
        site [] (jokes ''?_t=1''))) = [(CACHE_NAME, [])]
   \<and> responded (on_fetch down site
        (settle [] (detached (on_fetch (answering \<lparr>status = 206, body = ''[1'', vary_star = False\<rparr>)
           site [] (jokes ''?_t=1''))))
        (jokes ''?_t=1'')) = Some \<lparr>status = 503, body = ''Offline'', vary_star = False\<rparr>
   \<and> settle [] (detached (on_fetch (answering \<lparr>status = 206, body = ''part'', vary_star = False\<rparr>)
        site [] (asset ''/intro.mp4'' ''video''))) = [(STATIC_CACHE_NAME, [])]
   \<and> on_fetch down site
        (settle [] (detached (on_fetch (answering \<lparr>status = 206, body = ''part'', vary_star = False\<rparr>)
           site [] (asset ''/intro.mp4'' ''video''))))
        (asset ''/intro.mp4'' ''video'')
       = \<lparr>responded = None, fetched = [asset ''/intro.mp4'' ''video''], detached = []\<rparr>"
  by (simp add: on_fetch_def network_first_def cache_first_def isDataFile_def DATA_FILES_def
        jokes_def asset_def location_of_def answering_def down_def settle_def caches_open_def
        caches_keys_def storable_def cache_match_def offline_def)

end
